theory Spec2Isabelle
  imports Complex_Main "HOL-Library.Sublist"
begin

section \<open>Data model (types.ts)\<close>

text \<open>
  The enums of the source. The two \<open>PENDING\<close> members (of \<open>ReviewResult\<close> and of
  \<open>ReviewStatus\<close>) get different constructor names, since a name can belong to one
  datatype only.
\<close>

datatype RiskLevel = HIGH | MEDIUM | LOW | NORMAL

datatype ReviewResult =
  TRUE_FRAUD | SUSPECTED_FRAUD | ILLEGAL_BUSINESS | FALSE_POSITIVE | PENDING_RESULT

datatype ReviewStatus = REVIEWED | PENDING

text \<open>
  \<open>RiskRecord\<close>. The field \<open>id\<close> is called \<open>recordId\<close> (\<open>id\<close> is the identity
  function of HOL). \<open>callTime\<close> is the instant the ISO string denotes, in milliseconds
  since the epoch (the time value of \<open>new Date(d.callTime)\<close>). The optional
  \<open>count\<close> is a multiplicity, the number of calls the record stands for: a natural
  number when present (\<open>None\<close> is \<open>undefined\<close>). Zero is kept, since the code
  decides what a zero count means; negative and fractional numbers are outside the model.
  All counters are sums of counts, so natural numbers too (they are exact in JavaScript
  below \<open>2^53\<close>).
\<close>

record RiskRecord =
  recordId :: string
  enterpriseId :: string
  enterpriseName :: string
  customerNumber :: string
  callTime :: int
  duration :: int
  riskLevel :: RiskLevel
  fraudType :: string
  riskPoints :: "string list"
  reviewStatus :: ReviewStatus
  reviewResult :: ReviewResult
  reviewer :: "string option"
  count :: "nat option"

text \<open>
  The rates of \<open>DashboardStats\<close> are results of a JavaScript division. A JavaScript
  number is modelled by its real value when it is finite, and by a constructor of its
  own when it is not, so that a division by zero stays visible in the model.
\<close>

datatype jsnum = Finite real | NaN | PosInfinity | NegInfinity

definition js_div :: "nat \<Rightarrow> nat \<Rightarrow> jsnum" where
  "js_div a b =
     (if b = 0 then (if a = 0 then NaN else PosInfinity)
      else Finite (real a / real b))"

definition js_times100 :: "jsnum \<Rightarrow> jsnum" where
  "js_times100 x = (case x of Finite r \<Rightarrow> Finite (r * 100) | other \<Rightarrow> other)"

record DashboardStats =
  totalDetections :: nat
  highRiskCount :: nat
  mediumRiskCount :: nat
  lowRiskCount :: nat
  highRiskReviewedCount :: nat
  mediumRiskReviewedCount :: nat
  reviewedCount :: nat
  reviewCompletionRate :: jsnum
  highRiskRate :: jsnum
  trueFraudCount :: nat
  suspectedFraudCount :: nat
  illegalBusinessCount :: nat
  falsePositiveCount :: nat
  accuracyRate :: jsnum

section \<open>calculateStats (utils/mockData.ts)\<close>

text \<open>\<open>d.count || 1\<close>: \<open>undefined\<close> and \<open>0\<close> are falsy, every other count is kept.\<close>

definition countOr1 :: "RiskRecord \<Rightarrow> nat" where
  "countOr1 d = (case count d of None \<Rightarrow> 1 | Some c \<Rightarrow> if c = 0 then 1 else c)"

text \<open>The eleven local variables of the loop.\<close>

record counters =
  total :: nat
  highRisk :: nat
  medRisk :: nat
  lowRisk :: nat
  highRiskReviewed :: nat
  mediumRiskReviewed :: nat
  reviewedTotal :: nat
  trueFraud :: nat
  suspFraud :: nat
  illegal :: nat
  falsePos :: nat

definition counters0 :: counters where
  "counters0 = \<lparr>total = 0, highRisk = 0, medRisk = 0, lowRisk = 0,
     highRiskReviewed = 0, mediumRiskReviewed = 0, reviewedTotal = 0,
     trueFraud = 0, suspFraud = 0, illegal = 0, falsePos = 0\<rparr>"

text \<open>One iteration of \<open>for (const d of data)\<close>, statement by statement.\<close>

definition addTier :: "RiskRecord \<Rightarrow> nat \<Rightarrow> counters \<Rightarrow> counters" where
  "addTier d n c =
     (if riskLevel d = HIGH then c\<lparr>highRisk := highRisk c + n\<rparr>
      else if riskLevel d = MEDIUM then c\<lparr>medRisk := medRisk c + n\<rparr>
      else if riskLevel d = LOW then c\<lparr>lowRisk := lowRisk c + n\<rparr>
      else c)"

definition addTierReviewed :: "RiskRecord \<Rightarrow> nat \<Rightarrow> counters \<Rightarrow> counters" where
  "addTierReviewed d n c =
     (if riskLevel d = HIGH then c\<lparr>highRiskReviewed := highRiskReviewed c + n\<rparr>
      else if riskLevel d = MEDIUM then c\<lparr>mediumRiskReviewed := mediumRiskReviewed c + n\<rparr>
      else c)"

definition addOutcome :: "RiskRecord \<Rightarrow> nat \<Rightarrow> counters \<Rightarrow> counters" where
  "addOutcome d n c =
     (if reviewResult d = TRUE_FRAUD then c\<lparr>trueFraud := trueFraud c + n\<rparr>
      else if reviewResult d = SUSPECTED_FRAUD then c\<lparr>suspFraud := suspFraud c + n\<rparr>
      else if reviewResult d = ILLEGAL_BUSINESS then c\<lparr>illegal := illegal c + n\<rparr>
      else if reviewResult d = FALSE_POSITIVE then c\<lparr>falsePos := falsePos c + n\<rparr>
      else c)"

definition statsStep :: "RiskRecord \<Rightarrow> counters \<Rightarrow> counters" where
  "statsStep d c =
     (let n = countOr1 d;
          c1 = c\<lparr>total := total c + n\<rparr>;
          c2 = addTier d n c1
      in if reviewStatus d = REVIEWED
         then addOutcome d n (addTierReviewed d n (c2\<lparr>reviewedTotal := reviewedTotal c2 + n\<rparr>))
         else c2)"

definition statsLoop :: "RiskRecord list \<Rightarrow> counters" where
  "statsLoop data = fold statsStep data counters0"

definition calculateStats :: "RiskRecord list \<Rightarrow> DashboardStats" where
  "calculateStats data =
     (let c = statsLoop data;
          validDetections = trueFraud c + suspFraud c + illegal c;
          reviewTargetCount = highRisk c + medRisk c;
          reviewedTargetCount = highRiskReviewed c + mediumRiskReviewed c
      in \<lparr>totalDetections = total c,
          highRiskCount = highRisk c,
          mediumRiskCount = medRisk c,
          lowRiskCount = lowRisk c,
          highRiskReviewedCount = highRiskReviewed c,
          mediumRiskReviewedCount = mediumRiskReviewed c,
          reviewedCount = reviewedTotal c,
          reviewCompletionRate =
            (if 0 < reviewTargetCount
             then js_times100 (js_div reviewedTargetCount reviewTargetCount) else Finite 0),
          highRiskRate =
            (if 0 < total c then js_times100 (js_div (highRisk c) (total c)) else Finite 0),
          trueFraudCount = trueFraud c,
          suspectedFraudCount = suspFraud c,
          illegalBusinessCount = illegal c,
          falsePositiveCount = falsePos c,
          accuracyRate =
            (if 0 < reviewedTotal c
             then js_times100 (js_div validDetections (reviewedTotal c)) else Finite 0)\<rparr>)"

text \<open>The weight of a record as the data model has it: the count, and 1 when unset.\<close>

definition weight :: "RiskRecord \<Rightarrow> nat" where
  "weight d = (case count d of None \<Rightarrow> 1 | Some c \<Rightarrow> c)"

definition positiveWeight :: "RiskRecord \<Rightarrow> bool" where
  "positiveWeight d = (0 < weight d)"

text \<open>
  The same sums written over the list: the weight-sum of the records that satisfy \<open>P\<close>,
  each record counted with the weight the loop gives it.
\<close>

definition weightSum :: "(RiskRecord \<Rightarrow> bool) \<Rightarrow> RiskRecord list \<Rightarrow> nat" where
  "weightSum P data = (\<Sum>d\<leftarrow>filter P data. countOr1 d)"

definition isReviewed :: "RiskRecord \<Rightarrow> bool" where
  "isReviewed d = (reviewStatus d = REVIEWED)"

definition isHighOrMedium :: "RiskRecord \<Rightarrow> bool" where
  "isHighOrMedium d = (riskLevel d = HIGH \<or> riskLevel d = MEDIUM)"

definition isValidDetection :: "RiskRecord \<Rightarrow> bool" where
  "isValidDetection d =
     (reviewResult d = TRUE_FRAUD \<or> reviewResult d = SUSPECTED_FRAUD \<or>
      reviewResult d = ILLEGAL_BUSINESS)"

definition knownTier :: "RiskRecord \<Rightarrow> bool" where
  "knownTier d = (riskLevel d = HIGH \<or> riskLevel d = MEDIUM \<or> riskLevel d = LOW)"

section \<open>The per-enterprise rollup: rawStats (components/EnterpriseTable.tsx)\<close>

text \<open>
  \<open>EnterpriseStat\<close>; its fields carry the suffix \<open>_es\<close>, since \<open>total\<close>,
  \<open>trueFraud\<close> and \<open>illegal\<close> are variables of \<open>calculateStats\<close> too.
\<close>

record EnterpriseStat =
  id_es :: string
  name_es :: string
  total_es :: nat
  high_es :: nat
  medium_es :: nat
  low_es :: nat
  trueFraud_es :: nat
  suspected_es :: nat
  illegal_es :: nat
  falsePositive_es :: nat

text \<open>
  A JavaScript \<open>Map\<close> keeps its keys in insertion order, and \<open>map.values()\<close> lists the
  values in that order: the map is a list of pairs with distinct keys. \<open>mapHas\<close> is
  \<open>map.has(k)\<close>, \<open>mapSet\<close> is \<open>map.set(k, v)\<close> (a new key goes last, a known key keeps
  its place), and \<open>mapMutate k f\<close> is an assignment through \<open>map.get(k)!\<close>, which changes
  the stored object where it stands.
\<close>

fun mapHas :: "('k \<times> 'v) list \<Rightarrow> 'k \<Rightarrow> bool" where
  "mapHas [] k = False"
| "mapHas ((k', v) # m) k = (if k' = k then True else mapHas m k)"

fun mapSet :: "('k \<times> 'v) list \<Rightarrow> 'k \<Rightarrow> 'v \<Rightarrow> ('k \<times> 'v) list" where
  "mapSet [] k v = [(k, v)]"
| "mapSet ((k', v') # m) k v = (if k' = k then (k, v) # m else (k', v') # mapSet m k v)"

fun mapMutate :: "('k \<times> 'v) list \<Rightarrow> 'k \<Rightarrow> ('v \<Rightarrow> 'v) \<Rightarrow> ('k \<times> 'v) list" where
  "mapMutate [] k f = []"
| "mapMutate ((k', v') # m) k f =
     (if k' = k then (k', f v') # m else (k', v') # mapMutate m k f)"

definition mapValues :: "('k \<times> 'v) list \<Rightarrow> 'v list" where
  "mapValues m = map snd m"

definition newEnterpriseStat :: "RiskRecord \<Rightarrow> EnterpriseStat" where
  "newEnterpriseStat r =
     \<lparr>id_es = enterpriseId r, name_es = enterpriseName r, total_es = 0, high_es = 0,
      medium_es = 0, low_es = 0, trueFraud_es = 0, suspected_es = 0, illegal_es = 0,
      falsePositive_es = 0\<rparr>"

text \<open>The assignments to \<open>stats\<close> in the body of \<open>data.forEach\<close>, in the source's order.\<close>

definition addToEnterprise :: "RiskRecord \<Rightarrow> nat \<Rightarrow> EnterpriseStat \<Rightarrow> EnterpriseStat" where
  "addToEnterprise r n stats =
     (let s1 = stats\<lparr>total_es := total_es stats + n\<rparr>;
          s2 = (if riskLevel r = HIGH then s1\<lparr>high_es := high_es s1 + n\<rparr> else s1);
          s3 = (if riskLevel r = MEDIUM then s2\<lparr>medium_es := medium_es s2 + n\<rparr> else s2);
          s4 = (if riskLevel r = LOW then s3\<lparr>low_es := low_es s3 + n\<rparr> else s3)
      in if reviewStatus r = REVIEWED
         then
           (let s5 = (if reviewResult r = TRUE_FRAUD
                      then s4\<lparr>trueFraud_es := trueFraud_es s4 + n\<rparr> else s4);
                s6 = (if reviewResult r = SUSPECTED_FRAUD
                      then s5\<lparr>suspected_es := suspected_es s5 + n\<rparr> else s5);
                s7 = (if reviewResult r = ILLEGAL_BUSINESS
                      then s6\<lparr>illegal_es := illegal_es s6 + n\<rparr> else s6)
            in if reviewResult r = FALSE_POSITIVE
               then s7\<lparr>falsePositive_es := falsePositive_es s7 + n\<rparr> else s7)
         else s4)"

definition enterpriseStep ::
  "RiskRecord \<Rightarrow> (string \<times> EnterpriseStat) list \<Rightarrow> (string \<times> EnterpriseStat) list" where
  "enterpriseStep r m =
     (let n = countOr1 r;
          m1 = (if \<not> mapHas m (enterpriseId r)
                then mapSet m (enterpriseId r) (newEnterpriseStat r) else m)
      in mapMutate m1 (enterpriseId r) (addToEnterprise r n))"

definition enterpriseMap :: "RiskRecord list \<Rightarrow> (string \<times> EnterpriseStat) list" where
  "enterpriseMap data = fold enterpriseStep data []"

definition rawStats :: "RiskRecord list \<Rightarrow> EnterpriseStat list" where
  "rawStats data = mapValues (enterpriseMap data)"

text \<open>What identifies a row to the reader: its id and its display name.\<close>

definition label :: "EnterpriseStat \<Rightarrow> string \<times> string" where
  "label r = (id_es r, name_es r)"

text \<open>Every entry is stored under the id it carries, and no key occurs twice.\<close>

definition keyed :: "(string \<times> EnterpriseStat) list \<Rightarrow> bool" where
  "keyed m = (distinct (map fst m) \<and> list_all (\<lambda>(k, v). id_es v = k) m)"

section \<open>Search, sort and the sort selection (components/EnterpriseTable.tsx)\<close>

text \<open>
  Strings are byte strings (UTF-8). \<open>toLowerCase\<close> is modelled on the ASCII letters and
  \<open>trim\<close> on the ASCII white space (tab, line feed, vertical tab, form feed, carriage
  return, space); a byte above 127 is left as it is, which is what JavaScript does to
  the Chinese text of the enterprise names.
\<close>

definition toLowerChar :: "char \<Rightarrow> char" where
  "toLowerChar c =
     (let n = (of_char c :: nat) in if 65 \<le> n \<and> n \<le> 90 then char_of (n + 32) else c)"

definition toLowerCase :: "string \<Rightarrow> string" where
  "toLowerCase s = map toLowerChar s"

definition isWhiteSpace :: "char \<Rightarrow> bool" where
  "isWhiteSpace c = (let n = (of_char c :: nat) in (9 \<le> n \<and> n \<le> 13) \<or> n = 32)"

definition trim :: "string \<Rightarrow> string" where
  "trim s = rev (dropWhile isWhiteSpace (rev (dropWhile isWhiteSpace s)))"

text \<open>\<open>s.includes(t)\<close>: \<open>t\<close> occurs in \<open>s\<close> as a run of consecutive characters.\<close>

fun str_includes :: "string \<Rightarrow> string \<Rightarrow> bool" where
  "str_includes [] t = (t = [])"
| "str_includes (c # cs) t = (if prefix t (c # cs) then True else str_includes cs t)"

datatype SortKey =
  key_high | key_medium | key_low | key_trueFraud | key_suspected | key_illegal
  | key_falsePositive

datatype SortDirection = asc | desc

record SortConfig =
  key :: "SortKey option"
  direction :: SortDirection

text \<open>\<open>a[sortConfig.key!]\<close>: the field of the row that the key names.\<close>

fun sortField :: "SortKey \<Rightarrow> EnterpriseStat \<Rightarrow> nat" where
  "sortField key_high a = high_es a"
| "sortField key_medium a = medium_es a"
| "sortField key_low a = low_es a"
| "sortField key_trueFraud a = trueFraud_es a"
| "sortField key_suspected a = suspected_es a"
| "sortField key_illegal a = illegal_es a"
| "sortField key_falsePositive a = falsePositive_es a"

text \<open>The filter block of \<open>processedData\<close>.\<close>

definition matchesTerm :: "string \<Rightarrow> EnterpriseStat \<Rightarrow> bool" where
  "matchesTerm lowerTerm item =
     (str_includes (toLowerCase (name_es item)) lowerTerm \<or> str_includes (id_es item) lowerTerm)"

definition filterRows :: "string \<Rightarrow> EnterpriseStat list \<Rightarrow> EnterpriseStat list" where
  "filterRows searchTerm rows =
     (if trim searchTerm \<noteq> []
      then (let lowerTerm = toLowerCase searchTerm in filter (matchesTerm lowerTerm) rows)
      else rows)"

text \<open>
  The sort block: \<open>Array.prototype.sort\<close> is stable, and the comparator orders by the
  difference of two numbers (\<open>valA - valB\<close>, or \<open>valB - valA\<close>), so the result is
  the stable sort by the field (ascending) or by its negation (descending), which
  \<open>sort_key\<close> computes.
\<close>

definition sortRows :: "SortConfig \<Rightarrow> EnterpriseStat list \<Rightarrow> EnterpriseStat list" where
  "sortRows cfg rows =
     (case key cfg of
        None \<Rightarrow> rows
      | Some k \<Rightarrow>
          (if direction cfg = asc then sort_key (sortField k) rows
           else sort_key (\<lambda>a. - int (sortField k a)) rows))"

definition processedData ::
  "EnterpriseStat list \<Rightarrow> string \<Rightarrow> SortConfig \<Rightarrow> EnterpriseStat list" where
  "processedData rows searchTerm cfg = sortRows cfg (filterRows searchTerm rows)"

definition handleSort :: "SortKey \<Rightarrow> SortConfig \<Rightarrow> SortConfig" where
  "handleSort k prev =
     (if key prev = Some k
      then \<lparr>key = Some k, direction = (if direction prev = asc then desc else asc)\<rparr>
      else \<lparr>key = Some k, direction = desc\<rparr>)"

text \<open>The opposite direction, for stating what a flip is.\<close>

fun flipped :: "SortDirection \<Rightarrow> SortDirection" where
  "flipped asc = desc"
| "flipped desc = asc"

section \<open>Dates (the ECMAScript time values the source computes with)\<close>

text \<open>
  A \<open>Date\<close> is its time value: milliseconds since the epoch, UTC. The local time zone
  is the parameter \<open>tza\<close>, the offset of local time from UTC in milliseconds (a zone
  with a fixed offset; daylight saving is not modelled). \<open>Day\<close>, \<open>LocalTime\<close>,
  \<open>UTC\<close>, \<open>DayFromYear\<close> and \<open>MakeDay\<close> are the abstract operations of the
  language specification.
\<close>

definition msPerDay :: int where
  "msPerDay = 86400000"

definition Day :: "int \<Rightarrow> int" where
  "Day t = t div msPerDay"

definition LocalTime :: "int \<Rightarrow> int \<Rightarrow> int" where
  "LocalTime tza t = t + tza"

definition UTC :: "int \<Rightarrow> int \<Rightarrow> int" where
  "UTC tza t = t - tza"

definition DayFromYear :: "int \<Rightarrow> int" where
  "DayFromYear y =
     365 * (y - 1970) + (y - 1969) div 4 - (y - 1901) div 100 + (y - 1601) div 400"

definition isLeapYear :: "int \<Rightarrow> bool" where
  "isLeapYear y =
     (if y mod 4 \<noteq> 0 then False else if y mod 100 \<noteq> 0 then True else y mod 400 = 0)"

definition daysInMonth :: "int \<Rightarrow> nat \<Rightarrow> nat" where
  "daysInMonth y m =
     (if m = 2 then (if isLeapYear y then 29 else 28)
      else if m = 4 \<or> m = 6 \<or> m = 9 \<or> m = 11 then 30 else 31)"

text \<open>The days of the year before month \<open>m\<close> (1 to 12) begins.\<close>

definition daysBeforeMonth :: "int \<Rightarrow> nat \<Rightarrow> int" where
  "daysBeforeMonth y m =
     int (sum_list (map (daysInMonth y) [1..<m]))"

text \<open>A calendar date as a date input gives it, \<open>YYYY-MM-DD\<close>.\<close>

record isoDate =
  year :: int
  month :: nat
  dayOfMonth :: nat

definition validDate :: "isoDate \<Rightarrow> bool" where
  "validDate d =
     (1 \<le> month d \<and> month d \<le> 12 \<and> 1 \<le> dayOfMonth d \<and>
      dayOfMonth d \<le> daysInMonth (year d) (month d))"

definition MakeDay :: "isoDate \<Rightarrow> int" where
  "MakeDay d = DayFromYear (year d) + daysBeforeMonth (year d) (month d) + int (dayOfMonth d) - 1"

text \<open>
  \<open>new Date('YYYY-MM-DD')\<close>: a date-only string is read as UTC, so the time value is
  midnight UTC of that date. A string that is not a date gives an invalid \<open>Date\<close>
  (\<open>None\<close>), and every comparison with it is false.
\<close>

definition parseDateOnly :: "isoDate \<Rightarrow> int option" where
  "parseDateOnly d = (if validDate d then Some (MakeDay d * msPerDay) else None)"

text \<open>
  \<open>end.setHours(23, 59, 59, 999)\<close>: the time of day is replaced in local time, the
  local calendar day of the instant is kept.
\<close>

definition setHoursEndOfDay :: "int \<Rightarrow> int \<Rightarrow> int" where
  "setHoursEndOfDay tza t =
     UTC tza (Day (LocalTime tza t) * msPerDay + (23 * 3600000 + 59 * 60000 + 59 * 1000 + 999))"

section \<open>The time-window filter, case 'custom' (App.tsx, both versions)\<close>

record CustomDateRange =
  range_start :: isoDate
  range_end :: isoDate

definition customPredicate :: "int \<Rightarrow> CustomDateRange \<Rightarrow> RiskRecord \<Rightarrow> bool" where
  "customPredicate tza customDateRange d =
     (let callDate = callTime d in
      case parseDateOnly (range_start customDateRange) of
        None \<Rightarrow> False
      | Some start \<Rightarrow>
          (case parseDateOnly (range_end customDateRange) of
             None \<Rightarrow> False
           | Some end0 \<Rightarrow> start \<le> callDate \<and> callDate \<le> setHoursEndOfDay tza end0))"

definition filteredDataCustom :: "int \<Rightarrow> CustomDateRange \<Rightarrow> RiskRecord list \<Rightarrow> RiskRecord list" where
  "filteredDataCustom tza customDateRange rawData =
     filter (customPredicate tza customDateRange) rawData"

text \<open>The local calendar day of a record, as a day number.\<close>

definition localDay :: "int \<Rightarrow> RiskRecord \<Rightarrow> int" where
  "localDay tza d = Day (LocalTime tza (callTime d))"

text \<open>A local wall-clock time on a calendar date, as a time value.\<close>

definition localInstant :: "int \<Rightarrow> isoDate \<Rightarrow> int \<Rightarrow> int \<Rightarrow> int \<Rightarrow> int" where
  "localInstant tza d h mi s = UTC tza (MakeDay d * msPerDay + h * 3600000 + mi * 60000 + s * 1000)"

section \<open>The per-day rollup: dailyData (components/DailyReportTable.tsx)\<close>

text \<open>
  \<open>DailyAggregatedData\<close>, fields suffixed \<open>_dd\<close>. The key
  \<open>toLocaleDateString('zh-CN')\<close> is a rendering of the local calendar date; the model
  keeps the number of that local day instead of the string. \<open>timestamp\<close> is local
  midnight of that day.
\<close>

record DailyAggregatedData =
  date_dd :: int
  timestamp_dd :: int
  total_dd :: nat
  high_dd :: nat
  medium_dd :: nat
  low_dd :: nat

definition newDaily :: "int \<Rightarrow> int \<Rightarrow> DailyAggregatedData" where
  "newDaily tza dateKey =
     \<lparr>date_dd = dateKey, timestamp_dd = UTC tza (dateKey * msPerDay),
      total_dd = 0, high_dd = 0, medium_dd = 0, low_dd = 0\<rparr>"

definition addToDaily :: "RiskRecord \<Rightarrow> nat \<Rightarrow> DailyAggregatedData \<Rightarrow> DailyAggregatedData" where
  "addToDaily r n stats =
     (let s1 = stats\<lparr>total_dd := total_dd stats + n\<rparr>
      in if riskLevel r = HIGH then s1\<lparr>high_dd := high_dd s1 + n\<rparr>
         else if riskLevel r = MEDIUM then s1\<lparr>medium_dd := medium_dd s1 + n\<rparr>
         else if riskLevel r = LOW then s1\<lparr>low_dd := low_dd s1 + n\<rparr>
         else s1)"

definition dailyStep ::
  "int \<Rightarrow> RiskRecord \<Rightarrow> (int \<times> DailyAggregatedData) list \<Rightarrow> (int \<times> DailyAggregatedData) list" where
  "dailyStep tza r m =
     (let dateKey = localDay tza r;
          n = countOr1 r;
          m1 = (if \<not> mapHas m dateKey then mapSet m dateKey (newDaily tza dateKey) else m)
      in mapMutate m1 dateKey (addToDaily r n))"

text \<open>The final sort is by \<open>b.timestamp - a.timestamp\<close>: latest day first, stable.\<close>

definition dailyData :: "int \<Rightarrow> RiskRecord list \<Rightarrow> DailyAggregatedData list" where
  "dailyData tza data =
     sort_key (\<lambda>a. - timestamp_dd a) (mapValues (fold (dailyStep tza) data []))"

section \<open>Sample inputs\<close>

text \<open>
  The three records of the specification's scenario: (HIGH, weight 1, reviewed, true
  fraud), (HIGH, weight 1, pending), (MEDIUM, weight 5, reviewed, false positive).
\<close>

definition sampleRecord :: RiskRecord where
  "sampleRecord =
     \<lparr>recordId = ''REC-A1'', enterpriseId = ''7501556'', enterpriseName = ''Migration'',
      customerNumber = ''1234****5678'', callTime = 1704852000000, duration = 30,
      riskLevel = HIGH, fraudType = ''loan'', riskPoints = [], reviewStatus = REVIEWED,
      reviewResult = TRUE_FRAUD, reviewer = Some ''renyl'', count = Some 1\<rparr>"

definition scenario :: "RiskRecord list" where
  "scenario =
     [sampleRecord,
      sampleRecord\<lparr>recordId := ''REC-A2'', reviewStatus := PENDING,
        reviewResult := PENDING_RESULT, reviewer := None\<rparr>,
      sampleRecord\<lparr>recordId := ''REC-A3'', riskLevel := MEDIUM,
        reviewResult := FALSE_POSITIVE, count := Some 5\<rparr>]"

definition jan10 :: isoDate where
  "jan10 = \<lparr>year = 2024, month = 1, dayOfMonth = 10\<rparr>"

definition jan10Range :: CustomDateRange where
  "jan10Range = \<lparr>range_start = jan10, range_end = jan10\<rparr>"

text \<open>China Standard Time, UTC+8, and US Eastern Standard Time, UTC-5.\<close>

definition tzaShanghai :: int where
  "tzaShanghai = 8 * 3600000"

definition tzaNewYork :: int where
  "tzaNewYork = - (5 * 3600000)"

text \<open>
  A record at 2024-01-10 00:00:00 local time in Shanghai, and a row whose id has
  upper-case letters.
\<close>

definition localMidnightRecord :: RiskRecord where
  "localMidnightRecord =
     sampleRecord\<lparr>recordId := ''REC-C1'', callTime := localInstant tzaShanghai jan10 0 0 0\<rparr>"

definition rowA1 :: EnterpriseStat where
  "rowA1 = \<lparr>id_es = ''A1'', name_es = ''Call Center'', total_es = 1, high_es = 1,
     medium_es = 0, low_es = 0, trueFraud_es = 0, suspected_es = 0, illegal_es = 0,
     falsePositive_es = 0\<rparr>"

text \<open>The state the table starts in: sorted by the high-risk count, descending.\<close>

definition initialSortConfig :: SortConfig where
  "initialSortConfig = \<lparr>key = Some key_high, direction = desc\<rparr>"

text \<open>
  One enterprise id under three names, and a second enterprise in between; a batch record
  whose count is present and zero.
\<close>

definition renamedTwice :: "RiskRecord list" where
  "renamedTwice =
     [sampleRecord,
      sampleRecord\<lparr>recordId := ''REC-B2'', enterpriseName := ''Renamed'', count := Some 3\<rparr>,
      sampleRecord\<lparr>recordId := ''REC-B3'', enterpriseId := ''7122191'', enterpriseName := ''Other''\<rparr>,
      sampleRecord\<lparr>recordId := ''REC-B4'', enterpriseName := ''Renamed again'', count := None\<rparr>]"

definition zeroCount :: RiskRecord where
  "zeroCount =
     sampleRecord\<lparr>recordId := ''BATCH-0'', customerNumber := ''BATCH_DATA'', duration := 0,
       riskLevel := LOW, reviewStatus := PENDING, reviewResult := PENDING_RESULT,
       reviewer := None, count := Some 0\<rparr>"

section \<open>The counters of the loop as sums\<close>

lemmas step_defs = statsStep_def addTier_def addTierReviewed_def addOutcome_def Let_def

lemma fold_total:
  "total (fold statsStep data c) = total c + (\<Sum>d\<leftarrow>data. countOr1 d)"
  by (induction data arbitrary: c) (simp_all add: step_defs)

lemma fold_highRisk:
  "highRisk (fold statsStep data c) =
     highRisk c + (\<Sum>d\<leftarrow>data. if riskLevel d = HIGH then countOr1 d else 0)"
  by (induction data arbitrary: c) (simp_all add: step_defs)

lemma fold_medRisk:
  "medRisk (fold statsStep data c) =
     medRisk c + (\<Sum>d\<leftarrow>data. if riskLevel d = MEDIUM then countOr1 d else 0)"
  by (induction data arbitrary: c) (simp_all add: step_defs)

lemma fold_lowRisk:
  "lowRisk (fold statsStep data c) =
     lowRisk c + (\<Sum>d\<leftarrow>data. if riskLevel d = LOW then countOr1 d else 0)"
  by (induction data arbitrary: c) (simp_all add: step_defs)

lemma fold_reviewedTotal:
  "reviewedTotal (fold statsStep data c) =
     reviewedTotal c + (\<Sum>d\<leftarrow>data. if reviewStatus d = REVIEWED then countOr1 d else 0)"
  by (induction data arbitrary: c) (simp_all add: step_defs)

lemma fold_highRiskReviewed:
  "highRiskReviewed (fold statsStep data c) =
     highRiskReviewed c +
     (\<Sum>d\<leftarrow>data. if reviewStatus d = REVIEWED \<and> riskLevel d = HIGH then countOr1 d else 0)"
  by (induction data arbitrary: c) (simp_all add: step_defs)

lemma fold_mediumRiskReviewed:
  "mediumRiskReviewed (fold statsStep data c) =
     mediumRiskReviewed c +
     (\<Sum>d\<leftarrow>data. if reviewStatus d = REVIEWED \<and> riskLevel d = MEDIUM then countOr1 d else 0)"
  by (induction data arbitrary: c) (simp_all add: step_defs)

lemma fold_trueFraud:
  "trueFraud (fold statsStep data c) =
     trueFraud c +
     (\<Sum>d\<leftarrow>data. if reviewStatus d = REVIEWED \<and> reviewResult d = TRUE_FRAUD then countOr1 d else 0)"
  by (induction data arbitrary: c) (simp_all add: step_defs)

lemma fold_suspFraud:
  "suspFraud (fold statsStep data c) =
     suspFraud c +
     (\<Sum>d\<leftarrow>data. if reviewStatus d = REVIEWED \<and> reviewResult d = SUSPECTED_FRAUD then countOr1 d else 0)"
  by (induction data arbitrary: c) (simp_all add: step_defs)

lemma fold_illegal:
  "illegal (fold statsStep data c) =
     illegal c +
     (\<Sum>d\<leftarrow>data. if reviewStatus d = REVIEWED \<and> reviewResult d = ILLEGAL_BUSINESS then countOr1 d else 0)"
  by (induction data arbitrary: c) (simp_all add: step_defs)

lemma fold_falsePos:
  "falsePos (fold statsStep data c) =
     falsePos c +
     (\<Sum>d\<leftarrow>data. if reviewStatus d = REVIEWED \<and> reviewResult d = FALSE_POSITIVE then countOr1 d else 0)"
  by (induction data arbitrary: c) (simp_all add: step_defs)

lemma sum_if_filter:
  "(\<Sum>d\<leftarrow>data. if P d then countOr1 d else 0) = weightSum P data"
  by (simp add: weightSum_def sum_list_map_filter')

lemma loop_total: "total (statsLoop data) = (\<Sum>d\<leftarrow>data. countOr1 d)"
  by (simp add: statsLoop_def fold_total counters0_def)

lemma loop_highRisk: "highRisk (statsLoop data) = weightSum (\<lambda>d. riskLevel d = HIGH) data"
  by (simp add: statsLoop_def fold_highRisk counters0_def sum_if_filter)

lemma loop_medRisk: "medRisk (statsLoop data) = weightSum (\<lambda>d. riskLevel d = MEDIUM) data"
  by (simp add: statsLoop_def fold_medRisk counters0_def sum_if_filter)

lemma loop_lowRisk: "lowRisk (statsLoop data) = weightSum (\<lambda>d. riskLevel d = LOW) data"
  by (simp add: statsLoop_def fold_lowRisk counters0_def sum_if_filter)

lemma loop_reviewedTotal: "reviewedTotal (statsLoop data) = weightSum isReviewed data"
  by (simp add: statsLoop_def fold_reviewedTotal counters0_def sum_if_filter
      isReviewed_def [abs_def])

lemma loop_highRiskReviewed:
  "highRiskReviewed (statsLoop data) = weightSum (\<lambda>d. isReviewed d \<and> riskLevel d = HIGH) data"
  by (simp add: statsLoop_def fold_highRiskReviewed counters0_def sum_if_filter isReviewed_def)

lemma loop_mediumRiskReviewed:
  "mediumRiskReviewed (statsLoop data) =
     weightSum (\<lambda>d. isReviewed d \<and> riskLevel d = MEDIUM) data"
  by (simp add: statsLoop_def fold_mediumRiskReviewed counters0_def sum_if_filter isReviewed_def)

lemma loop_trueFraud:
  "trueFraud (statsLoop data) = weightSum (\<lambda>d. isReviewed d \<and> reviewResult d = TRUE_FRAUD) data"
  by (simp add: statsLoop_def fold_trueFraud counters0_def sum_if_filter isReviewed_def)

lemma loop_suspFraud:
  "suspFraud (statsLoop data) =
     weightSum (\<lambda>d. isReviewed d \<and> reviewResult d = SUSPECTED_FRAUD) data"
  by (simp add: statsLoop_def fold_suspFraud counters0_def sum_if_filter isReviewed_def)

lemma loop_illegal:
  "illegal (statsLoop data) =
     weightSum (\<lambda>d. isReviewed d \<and> reviewResult d = ILLEGAL_BUSINESS) data"
  by (simp add: statsLoop_def fold_illegal counters0_def sum_if_filter isReviewed_def)

lemmas loop_sums = loop_highRisk loop_medRisk loop_lowRisk loop_reviewedTotal
  loop_highRiskReviewed loop_mediumRiskReviewed loop_trueFraud loop_suspFraud loop_illegal

text \<open>Weight-sums of disjoint classes add up to the weight-sum of their union.\<close>

lemma weightSum_disjoint:
  assumes "\<And>d. \<not> (P d \<and> Q d)"
  shows "weightSum P data + weightSum Q data = weightSum (\<lambda>d. P d \<or> Q d) data"
  using assms by (induction data) (auto simp: weightSum_def)

lemma weightSum_cong:
  "(\<And>d. d \<in> set data \<Longrightarrow> P d = Q d) \<Longrightarrow> weightSum P data = weightSum Q data"
  by (induction data) (auto simp: weightSum_def)

text \<open>Every record weighs at least 1 in the loop.\<close>

lemma countOr1_pos: "0 < countOr1 d"
  by (simp add: countOr1_def split: option.splits)

lemma weightSum_mono:
  assumes "\<And>d. P d \<Longrightarrow> Q d"
  shows "weightSum P data \<le> weightSum Q data"
proof (induction data)
  case Nil
  then show ?case by (simp add: weightSum_def)
next
  case (Cons d data)
  with assms [of d] show ?case
    by (auto simp: weightSum_def)
qed

lemma stats_fields:
  "totalDetections (calculateStats data) = total (statsLoop data)"
  "highRiskCount (calculateStats data) = highRisk (statsLoop data)"
  "mediumRiskCount (calculateStats data) = medRisk (statsLoop data)"
  "lowRiskCount (calculateStats data) = lowRisk (statsLoop data)"
  "highRiskReviewedCount (calculateStats data) = highRiskReviewed (statsLoop data)"
  "mediumRiskReviewedCount (calculateStats data) = mediumRiskReviewed (statsLoop data)"
  "reviewedCount (calculateStats data) = reviewedTotal (statsLoop data)"
  "trueFraudCount (calculateStats data) = trueFraud (statsLoop data)"
  "suspectedFraudCount (calculateStats data) = suspFraud (statsLoop data)"
  "illegalBusinessCount (calculateStats data) = illegal (statsLoop data)"
  "falsePositiveCount (calculateStats data) = falsePos (statsLoop data)"
  by (simp_all add: calculateStats_def Let_def)

section \<open>Claims about calculateStats\<close>

text \<open>
  Claim C1 (weight conservation). For every list of records in which each record's
  weight is a positive integer (an unset count counting as 1), \<open>calculateStats\<close>
  returns \<open>totalDetections\<close> equal to the sum of the records' weights.
\<close>

theorem weight_conservation:
  assumes "list_all positiveWeight data"
  shows "totalDetections (calculateStats data) = (\<Sum>d\<leftarrow>data. weight d)"
proof -
  have "(\<Sum>d\<leftarrow>data. countOr1 d) = (\<Sum>d\<leftarrow>data. weight d)"
    using assms
    by (induction data)
       (auto simp: countOr1_def weight_def positiveWeight_def split: option.splits)
  then show ?thesis
    by (simp only: stats_fields loop_total)
qed

theorem weight_conservation_witness:
  "list_all positiveWeight scenario \<and> totalDetections (calculateStats scenario) = 7"
proof -
  have h: "list_all positiveWeight scenario"
    by code_simp
  have "(\<Sum>d\<leftarrow>scenario. weight d) = 7"
    by code_simp
  with weight_conservation [OF h] h show ?thesis
    by simp
qed

text \<open>
  Whatever the tiers are, the three tier counts and the weight of the records of the
  reserved tier \<open>NORMAL\<close> make up the total: those records are the only leak.
\<close>

lemma tier_leak:
  "highRiskCount (calculateStats data) + mediumRiskCount (calculateStats data) +
   lowRiskCount (calculateStats data) + weightSum (\<lambda>d. riskLevel d = NORMAL) data =
   totalDetections (calculateStats data)"
  unfolding stats_fields loop_sums loop_total
  by (induction data) (auto simp: weightSum_def intro: RiskLevel.exhaust)

text \<open>
  Claim C5 (tier partition). For every list of records whose tiers are HIGH, MEDIUM or
  LOW, the three tier counts of the returned stats add up to \<open>totalDetections\<close>.
\<close>

theorem tier_partition:
  assumes "list_all knownTier data"
  shows "highRiskCount (calculateStats data) + mediumRiskCount (calculateStats data) +
         lowRiskCount (calculateStats data) = totalDetections (calculateStats data)"
proof -
  have "filter (\<lambda>d. riskLevel d = NORMAL) data = []"
    using assms by (induction data) (auto simp: knownTier_def)
  then have "weightSum (\<lambda>d. riskLevel d = NORMAL) data = 0"
    by (simp add: weightSum_def)
  with tier_leak [of data] show ?thesis
    by simp
qed

theorem tier_partition_witness:
  "list_all knownTier scenario \<and>
   highRiskCount (calculateStats scenario) + mediumRiskCount (calculateStats scenario) +
   lowRiskCount (calculateStats scenario) = 7"
proof -
  have h: "list_all knownTier scenario"
    by code_simp
  have "totalDetections (calculateStats scenario) = 7"
    by code_simp
  with tier_partition [OF h] h show ?thesis
    by simp
qed

text \<open>
  Claim C6 (review subset). For every list of records with positive weights, the
  returned stats satisfy \<open>reviewedCount \<le> totalDetections\<close>,
  \<open>highRiskReviewedCount \<le> highRiskCount\<close> and
  \<open>mediumRiskReviewedCount \<le> mediumRiskCount\<close>.
\<close>

theorem review_subset:
  assumes "list_all positiveWeight data"
  shows "reviewedCount (calculateStats data) \<le> totalDetections (calculateStats data) \<and>
         highRiskReviewedCount (calculateStats data) \<le> highRiskCount (calculateStats data) \<and>
         mediumRiskReviewedCount (calculateStats data) \<le> mediumRiskCount (calculateStats data)"
proof -
  have "weightSum isReviewed data \<le> weightSum (\<lambda>d. True) data"
    by (rule weightSum_mono) simp
  also have "weightSum (\<lambda>d. True) data = (\<Sum>d\<leftarrow>data. countOr1 d)"
    by (simp add: weightSum_def)
  finally have all: "reviewedCount (calculateStats data) \<le> totalDetections (calculateStats data)"
    by (simp add: stats_fields loop_sums loop_total)
  have high: "highRiskReviewedCount (calculateStats data) \<le> highRiskCount (calculateStats data)"
    unfolding stats_fields loop_sums by (rule weightSum_mono) simp
  have medium:
    "mediumRiskReviewedCount (calculateStats data) \<le> mediumRiskCount (calculateStats data)"
    unfolding stats_fields loop_sums by (rule weightSum_mono) simp
  from all high medium show ?thesis
    by simp
qed

theorem review_subset_witness:
  "list_all positiveWeight scenario \<and>
   reviewedCount (calculateStats scenario) \<le> 7 \<and>
   highRiskReviewedCount (calculateStats scenario) \<le> 2 \<and>
   mediumRiskReviewedCount (calculateStats scenario) \<le> 5"
proof -
  have h: "list_all positiveWeight scenario"
    by code_simp
  have "totalDetections (calculateStats scenario) = 7"
    and "highRiskCount (calculateStats scenario) = 2"
    and "mediumRiskCount (calculateStats scenario) = 5"
    by code_simp+
  with review_subset [OF h] h show ?thesis
    by simp
qed

lemma js_rate_Finite:
  "0 < b \<Longrightarrow> js_times100 (js_div a b) = Finite (real a / real b * 100)"
  by (simp add: js_div_def js_times100_def)

lemma stats_reviewCompletionRate:
  "reviewCompletionRate (calculateStats data) =
     (if 0 < highRisk (statsLoop data) + medRisk (statsLoop data)
      then js_times100 (js_div (highRiskReviewed (statsLoop data) + mediumRiskReviewed (statsLoop data))
                               (highRisk (statsLoop data) + medRisk (statsLoop data)))
      else Finite 0)"
  by (simp add: calculateStats_def Let_def)

lemma stats_accuracyRate:
  "accuracyRate (calculateStats data) =
     (if 0 < reviewedTotal (statsLoop data)
      then js_times100 (js_div (trueFraud (statsLoop data) + suspFraud (statsLoop data) + illegal (statsLoop data))
                               (reviewedTotal (statsLoop data)))
      else Finite 0)"
  by (simp add: calculateStats_def Let_def)

text \<open>
  Claim C3 (review completion rate). For every list of records, \<open>reviewCompletionRate\<close>
  is (highRiskReviewedCount + mediumRiskReviewedCount) / (highRiskCount +
  mediumRiskCount) * 100, a finite number, and exactly 0 when the denominator is 0. The
  denominator is the weight of the HIGH and MEDIUM records and the numerator the weight
  of the reviewed ones among them: LOW records and the grand total play no part.
\<close>

theorem review_completion_rate:
  "reviewCompletionRate (calculateStats data) =
           Finite (if highRiskCount (calculateStats data) + mediumRiskCount (calculateStats data) = 0
                   then 0
                   else real (highRiskReviewedCount (calculateStats data) +
                                     mediumRiskReviewedCount (calculateStats data)) /
                        real (highRiskCount (calculateStats data) +
                                     mediumRiskCount (calculateStats data)) * 100) \<and>
         highRiskCount (calculateStats data) + mediumRiskCount (calculateStats data) =
           weightSum isHighOrMedium data \<and>
         highRiskReviewedCount (calculateStats data) + mediumRiskReviewedCount (calculateStats data) =
           weightSum (\<lambda>d. isReviewed d \<and> isHighOrMedium d) data"
proof -
  let ?c = "statsLoop data"
  have target: "highRisk ?c + medRisk ?c = weightSum isHighOrMedium data"
    unfolding loop_sums isHighOrMedium_def [abs_def]
    by (rule weightSum_disjoint) simp
  have reviewed:
    "highRiskReviewed ?c + mediumRiskReviewed ?c =
       weightSum (\<lambda>d. isReviewed d \<and> isHighOrMedium d) data"
  proof -
    have "highRiskReviewed ?c + mediumRiskReviewed ?c =
            weightSum (\<lambda>d. (isReviewed d \<and> riskLevel d = HIGH) \<or>
                            (isReviewed d \<and> riskLevel d = MEDIUM)) data"
      unfolding loop_sums by (rule weightSum_disjoint) simp
    also have "\<dots> = weightSum (\<lambda>d. isReviewed d \<and> isHighOrMedium d) data"
      by (rule weightSum_cong) (auto simp: isHighOrMedium_def)
    finally show ?thesis .
  qed
  have rate:
    "reviewCompletionRate (calculateStats data) =
       Finite (if highRisk ?c + medRisk ?c = 0 then 0
               else real (highRiskReviewed ?c + mediumRiskReviewed ?c) /
                    real (highRisk ?c + medRisk ?c) * 100)"
    unfolding stats_reviewCompletionRate by (simp add: js_rate_Finite)
  from rate target reviewed show ?thesis
    unfolding stats_fields by simp
qed

theorem review_completion_rate_witness:
  "reviewCompletionRate (calculateStats scenario) = Finite (600 / 7) \<and>
   reviewCompletionRate (calculateStats []) = Finite 0"
proof -
  have counts:
    "highRiskCount (calculateStats scenario) = 2"
    "mediumRiskCount (calculateStats scenario) = 5"
    "highRiskReviewedCount (calculateStats scenario) = 1"
    "mediumRiskReviewedCount (calculateStats scenario) = 5"
    "highRiskCount (calculateStats []) = 0"
    "mediumRiskCount (calculateStats []) = 0"
    by code_simp+
  from review_completion_rate [of scenario] review_completion_rate [of "[]"] counts
  show ?thesis
    by simp
qed

text \<open>
  Claim C4 (accuracy rate). For every list of records, \<open>accuracyRate\<close> is
  (trueFraudCount + suspectedFraudCount + illegalBusinessCount) / reviewedCount * 100, a
  finite number, and exactly 0 when \<open>reviewedCount\<close> is 0. \<open>reviewedCount\<close> is the
  weight of the reviewed records of every tier; the numerator is the weight of the
  reviewed records whose result is one of the three confirming outcomes, so a false
  positive adds nothing to it.
\<close>

theorem accuracy_rate:
  "accuracyRate (calculateStats data) =
           Finite (if reviewedCount (calculateStats data) = 0 then 0
                   else real (trueFraudCount (calculateStats data) +
                                     suspectedFraudCount (calculateStats data) +
                                     illegalBusinessCount (calculateStats data)) /
                        real (reviewedCount (calculateStats data)) * 100) \<and>
         reviewedCount (calculateStats data) = weightSum isReviewed data \<and>
         trueFraudCount (calculateStats data) + suspectedFraudCount (calculateStats data) +
         illegalBusinessCount (calculateStats data) =
           weightSum (\<lambda>d. isReviewed d \<and> isValidDetection d) data"
proof -
  let ?c = "statsLoop data"
  have valid:
    "trueFraud ?c + suspFraud ?c + illegal ?c =
       weightSum (\<lambda>d. isReviewed d \<and> isValidDetection d) data"
  proof -
    have two: "trueFraud ?c + suspFraud ?c =
            weightSum (\<lambda>d. (isReviewed d \<and> reviewResult d = TRUE_FRAUD) \<or>
                            (isReviewed d \<and> reviewResult d = SUSPECTED_FRAUD)) data"
      unfolding loop_sums by (rule weightSum_disjoint) simp
    have "weightSum (\<lambda>d. (isReviewed d \<and> reviewResult d = TRUE_FRAUD) \<or>
                            (isReviewed d \<and> reviewResult d = SUSPECTED_FRAUD)) data +
          weightSum (\<lambda>d. isReviewed d \<and> reviewResult d = ILLEGAL_BUSINESS) data =
          weightSum (\<lambda>d. ((isReviewed d \<and> reviewResult d = TRUE_FRAUD) \<or>
                             (isReviewed d \<and> reviewResult d = SUSPECTED_FRAUD)) \<or>
                            (isReviewed d \<and> reviewResult d = ILLEGAL_BUSINESS)) data"
      by (rule weightSum_disjoint) auto
    with two have "trueFraud ?c + suspFraud ?c + illegal ?c =
            weightSum (\<lambda>d. ((isReviewed d \<and> reviewResult d = TRUE_FRAUD) \<or>
                             (isReviewed d \<and> reviewResult d = SUSPECTED_FRAUD)) \<or>
                            (isReviewed d \<and> reviewResult d = ILLEGAL_BUSINESS)) data"
      unfolding loop_illegal by simp
    also have "\<dots> = weightSum (\<lambda>d. isReviewed d \<and> isValidDetection d) data"
      by (rule weightSum_cong) (auto simp: isValidDetection_def)
    finally show ?thesis .
  qed
  have rate:
    "accuracyRate (calculateStats data) =
       Finite (if reviewedTotal ?c = 0 then 0
               else real (trueFraud ?c + suspFraud ?c + illegal ?c) /
                    real (reviewedTotal ?c) * 100)"
    unfolding stats_accuracyRate by (simp add: js_rate_Finite)
  from rate valid loop_reviewedTotal [of data] show ?thesis
    unfolding stats_fields by simp
qed

theorem accuracy_rate_witness:
  "accuracyRate (calculateStats scenario) = Finite (100 / 6) \<and>
   accuracyRate (calculateStats []) = Finite 0"
proof -
  have counts:
    "reviewedCount (calculateStats scenario) = 6"
    "trueFraudCount (calculateStats scenario) = 1"
    "suspectedFraudCount (calculateStats scenario) = 0"
    "illegalBusinessCount (calculateStats scenario) = 0"
    "reviewedCount (calculateStats []) = 0"
    by code_simp+
  from accuracy_rate [of scenario] accuracy_rate [of "[]"] counts
  show ?thesis
    by simp
qed

section \<open>The insertion-ordered map\<close>

lemma mapHas_keys: "mapHas m k \<longleftrightarrow> k \<in> set (map fst m)"
  by (induction m) auto

lemma mapSet_fresh: "\<not> mapHas m k \<Longrightarrow> mapSet m k v = m @ [(k, v)]"
  by (induction m) auto

lemma mapMutate_keys: "map fst (mapMutate m k f) = map fst m"
  by (induction m) auto

lemma mapMutate_append_fresh:
  "\<not> mapHas m k \<Longrightarrow> mapMutate (m @ [(k, v)]) k f = m @ [(k, f v)]"
  by (induction m) auto

text \<open>A mutation that leaves a projection of the values alone leaves it alone in the map.\<close>

lemma mapMutate_project:
  assumes "\<And>v. p (f v) = p v"
  shows "map (\<lambda>(k, v). (k, p v)) (mapMutate m k f) = map (\<lambda>(k, v). (k, p v)) m"
  by (induction m) (auto simp: assms)

section \<open>Identity and name of the rows of rawStats\<close>

lemma label_addToEnterprise: "label (addToEnterprise r n stats) = label stats"
  by (simp add: label_def addToEnterprise_def Let_def)

lemma label_new: "label (newEnterpriseStat r) = (enterpriseId r, enterpriseName r)"
  by (simp add: label_def newEnterpriseStat_def)

lemma enterpriseStep_labels:
  "map (\<lambda>(k, v). (k, label v)) (enterpriseStep r m) =
     (if mapHas m (enterpriseId r) then map (\<lambda>(k, v). (k, label v)) m
      else map (\<lambda>(k, v). (k, label v)) m @
           [(enterpriseId r, (enterpriseId r, enterpriseName r))])"
proof (cases "mapHas m (enterpriseId r)")
  case True
  then show ?thesis
    by (simp add: enterpriseStep_def Let_def mapMutate_project label_addToEnterprise)
next
  case False
  then show ?thesis
    by (simp add: enterpriseStep_def Let_def mapSet_fresh mapMutate_append_fresh
        label_addToEnterprise label_new)
qed

lemma enterpriseStep_keys:
  "map fst (enterpriseStep r m) =
     (if mapHas m (enterpriseId r) then map fst m else map fst m @ [enterpriseId r])"
proof -
  have "map fst (enterpriseStep r m) = map fst (map (\<lambda>(k, v). (k, label v)) (enterpriseStep r m))"
    by (simp add: case_prod_unfold comp_def)
  also have "\<dots> = (if mapHas m (enterpriseId r) then map fst m else map fst m @ [enterpriseId r])"
    unfolding enterpriseStep_labels by (simp add: case_prod_unfold comp_def)
  finally show ?thesis .
qed

lemma keyed_labels:
  "list_all (\<lambda>(k, v). id_es v = k) m \<longleftrightarrow>
   list_all (\<lambda>(k, l). fst l = k) (map (\<lambda>(k, v). (k, label v)) m)"
  by (induction m) (auto simp: label_def)

lemma keyed_step: "keyed m \<Longrightarrow> keyed (enterpriseStep r m)"
  unfolding keyed_def keyed_labels enterpriseStep_labels enterpriseStep_keys
  by (auto simp: mapHas_keys)

lemma keyed_fold: "keyed m \<Longrightarrow> keyed (fold enterpriseStep data m)"
  by (induction data arbitrary: m) (simp_all add: keyed_step)

lemma keyed_enterpriseMap: "keyed (enterpriseMap data)"
  unfolding enterpriseMap_def by (rule keyed_fold) (simp add: keyed_def)

lemma mapHas_labels:
  "mapHas m k \<Longrightarrow> \<exists>l. map_of (map (\<lambda>(k, v). (k, label v)) m) k = Some l"
  by (induction m) (auto split: if_splits)

lemma not_mapHas_labels:
  "\<not> mapHas m k \<Longrightarrow> map_of (map (\<lambda>(k, v). (k, label v)) m) k = None"
  by (induction m) (auto split: if_splits)

lemma map_of_snoc:
  "map_of (xs @ [(k, v)]) e =
     (case map_of xs e of Some l \<Rightarrow> Some l | None \<Rightarrow> if e = k then Some v else None)"
  by (induction xs) auto

lemma fold_labels:
  "map_of (map (\<lambda>(k, v). (k, label v)) (fold enterpriseStep data m)) e =
     (case map_of (map (\<lambda>(k, v). (k, label v)) m) e of
        Some l \<Rightarrow> Some l
      | None \<Rightarrow> map_option (\<lambda>d. (enterpriseId d, enterpriseName d))
                  (find (\<lambda>d. enterpriseId d = e) data))"
proof (induction data arbitrary: m)
  case Nil
  then show ?case by (simp split: option.splits)
next
  case (Cons d data)
  let ?L = "map (\<lambda>(k, v). (k, label v))"
  have unfold:
    "map_of (?L (fold enterpriseStep (d # data) m)) e =
       (case map_of (?L (enterpriseStep d m)) e of
          Some l \<Rightarrow> Some l
        | None \<Rightarrow> map_option (\<lambda>d. (enterpriseId d, enterpriseName d))
                    (find (\<lambda>d. enterpriseId d = e) data))"
    by (simp add: Cons.IH)
  show ?case
  proof (cases "mapHas m (enterpriseId d)")
    case True
    then obtain l where "map_of (?L m) (enterpriseId d) = Some l"
      by (auto dest: mapHas_labels)
    with True show ?thesis
      unfolding unfold by (auto simp: enterpriseStep_labels split: option.splits)
  next
    case False
    then have "map_of (?L m) (enterpriseId d) = None"
      by (rule not_mapHas_labels)
    with False show ?thesis
      unfolding unfold by (auto simp: enterpriseStep_labels map_of_snoc split: option.splits)
  qed
qed

lemma enterpriseStep_keyset:
  "set (map fst (enterpriseStep r m)) = insert (enterpriseId r) (set (map fst m))"
  unfolding enterpriseStep_keys by (auto simp: mapHas_keys)

lemma fold_keyset:
  "set (map fst (fold enterpriseStep data m)) = set (map fst m) \<union> set (map enterpriseId data)"
proof (induction data arbitrary: m)
  case Nil
  then show ?case by simp
next
  case (Cons d data)
  have "set (map fst (fold enterpriseStep (d # data) m)) =
          set (map fst (enterpriseStep d m)) \<union> set (map enterpriseId data)"
    using Cons.IH [of "enterpriseStep d m"] by simp
  then show ?case
    unfolding enterpriseStep_keyset by simp
qed

lemma find_row:
  "list_all (\<lambda>(k, v). id_es v = k) m \<Longrightarrow>
   map_option label (find (\<lambda>r. id_es r = e) (mapValues m)) =
   map_of (map (\<lambda>(k, v). (k, label v)) m) e"
  by (induction m) (auto simp: mapValues_def)

text \<open>
  Claim C10 (first name wins). In the per-enterprise rollup there is one row for each
  enterprise id of the input, and the row of an id carries the \<open>enterpriseName\<close> of
  the first record of the input with that id: later records with the same id and
  another name change neither the row's name nor its id.
\<close>

theorem first_name_wins:
  "map_option name_es (find (\<lambda>r. id_es r = e) (rawStats data)) =
     map_option enterpriseName (find (\<lambda>d. enterpriseId d = e) data) \<and>
   distinct (map id_es (rawStats data)) \<and>
   set (map id_es (rawStats data)) = set (map enterpriseId data)"
proof -
  let ?m = "enterpriseMap data"
  from keyed_enterpriseMap [of data]
  have dist: "distinct (map fst ?m)" and ids: "list_all (\<lambda>(k, v). id_es v = k) ?m"
    by (simp_all add: keyed_def)
  have same: "map id_es (mapValues m) = map fst m" if "list_all (\<lambda>(k, v). id_es v = k) m" for m
    using that by (induction m) (auto simp: mapValues_def)
  have "map_option label (find (\<lambda>r. id_es r = e) (rawStats data)) =
          map_of (map (\<lambda>(k, v). (k, label v)) ?m) e"
    by (simp only: rawStats_def find_row [OF ids])
  also have "\<dots> = map_option (\<lambda>d. (enterpriseId d, enterpriseName d))
                     (find (\<lambda>d. enterpriseId d = e) data)"
    by (simp add: enterpriseMap_def fold_labels)
  finally have "map_option snd (map_option label (find (\<lambda>r. id_es r = e) (rawStats data))) =
          map_option snd (map_option (\<lambda>d. (enterpriseId d, enterpriseName d))
            (find (\<lambda>d. enterpriseId d = e) data))"
    by simp
  then have name: "map_option name_es (find (\<lambda>r. id_es r = e) (rawStats data)) =
     map_option enterpriseName (find (\<lambda>d. enterpriseId d = e) data)"
    by (simp add: option.map_comp comp_def label_def)
  from dist have d: "distinct (map id_es (rawStats data))"
    by (simp add: rawStats_def same [OF ids])
  have "set (map id_es (rawStats data)) = set (map fst ?m)"
    by (simp only: rawStats_def same [OF ids])
  also have "\<dots> = set (map enterpriseId data)"
    unfolding enterpriseMap_def fold_keyset by simp
  finally have s: "set (map id_es (rawStats data)) = set (map enterpriseId data)" .
  from name d s show ?thesis
    by simp
qed

theorem first_name_wins_witness:
  "map_option name_es (find (\<lambda>r. id_es r = ''7501556'') (rawStats renamedTwice)) =
     Some ''Migration'' \<and>
   map name_es (rawStats renamedTwice) = [''Migration'', ''Other''] \<and>
   map total_es (rawStats renamedTwice) = [5, 1]"
proof -
  have "map_option enterpriseName (find (\<lambda>d. enterpriseId d = ''7501556'') renamedTwice) =
          Some ''Migration''"
    by code_simp
  moreover have "map name_es (rawStats renamedTwice) = [''Migration'', ''Other'']"
    and "map total_es (rawStats renamedTwice) = [5, 1]"
    by code_simp+
  ultimately show ?thesis
    using first_name_wins [of "''7501556''" renamedTwice] by simp
qed

section \<open>A count that is present and zero\<close>

lemma countOr1_zero:
  "count d = Some 0 \<Longrightarrow> countOr1 (d\<lparr>count := c\<rparr>) = (case c of None \<Rightarrow> 1 | Some n \<Rightarrow> if n = 0 then 1 else n)"
  by (simp add: countOr1_def)

lemma statsStep_zero:
  assumes "countOr1 d' = countOr1 d" and "d' = d\<lparr>count := c\<rparr>"
  shows "statsStep d' = statsStep d"
  using assms by (auto simp: fun_eq_iff step_defs)

lemma addToEnterprise_count: "addToEnterprise (d\<lparr>count := c\<rparr>) = addToEnterprise d"
  by (simp add: fun_eq_iff addToEnterprise_def Let_def)

lemma addToDaily_count: "addToDaily (d\<lparr>count := c\<rparr>) = addToDaily d"
  by (simp add: fun_eq_iff addToDaily_def Let_def)

lemma enterpriseStep_zero:
  assumes "countOr1 d' = countOr1 d" and "d' = d\<lparr>count := c\<rparr>"
  shows "enterpriseStep d' = enterpriseStep d"
  using assms
  by (simp add: fun_eq_iff enterpriseStep_def addToEnterprise_count newEnterpriseStat_def)

lemma dailyStep_zero:
  assumes "countOr1 d' = countOr1 d" and "d' = d\<lparr>count := c\<rparr>"
  shows "dailyStep tza d' = dailyStep tza d"
  using assms
  by (simp add: fun_eq_iff dailyStep_def addToDaily_count localDay_def)

lemma fold_same_step:
  "f d' = f d \<Longrightarrow> fold f (xs @ d' # ys) s = fold f (xs @ d # ys) s"
  by simp

text \<open>
  Claim C9 (zero count). A record whose count is present and 0 weighs 1 in every
  aggregation: in any list, \<open>calculateStats\<close>, the per-enterprise rollup and the per-day
  rollup return what they return when that record's count is unset, or is 1, and the
  record adds one event to the total, not zero.
\<close>

theorem zero_count_weighs_one:
  assumes "count d = Some 0"
  shows "countOr1 d = 1 \<and>
         calculateStats (xs @ d # ys) = calculateStats (xs @ d\<lparr>count := None\<rparr> # ys) \<and>
         calculateStats (xs @ d # ys) = calculateStats (xs @ d\<lparr>count := Some 1\<rparr> # ys) \<and>
         rawStats (xs @ d # ys) = rawStats (xs @ d\<lparr>count := None\<rparr> # ys) \<and>
         rawStats (xs @ d # ys) = rawStats (xs @ d\<lparr>count := Some 1\<rparr> # ys) \<and>
         dailyData tza (xs @ d # ys) = dailyData tza (xs @ d\<lparr>count := None\<rparr> # ys) \<and>
         dailyData tza (xs @ d # ys) = dailyData tza (xs @ d\<lparr>count := Some 1\<rparr> # ys) \<and>
         totalDetections (calculateStats (xs @ d # ys)) =
           totalDetections (calculateStats (xs @ ys)) + 1"
proof -
  from assms have one: "countOr1 d = 1"
    by (simp add: countOr1_def)
  have unset: "countOr1 (d\<lparr>count := None\<rparr>) = countOr1 d"
    and single: "countOr1 (d\<lparr>count := Some 1\<rparr>) = countOr1 d"
    by (simp_all add: one) (simp_all add: countOr1_def)
  have stats: "calculateStats (xs @ d\<lparr>count := c\<rparr> # ys) = calculateStats (xs @ d # ys)"
    if "countOr1 (d\<lparr>count := c\<rparr>) = countOr1 d" for c
    unfolding calculateStats_def statsLoop_def
    by (simp only: fold_same_step [OF statsStep_zero [OF that refl]])
  have rows: "rawStats (xs @ d\<lparr>count := c\<rparr> # ys) = rawStats (xs @ d # ys)"
    if "countOr1 (d\<lparr>count := c\<rparr>) = countOr1 d" for c
    unfolding rawStats_def enterpriseMap_def
    by (simp only: fold_same_step [OF enterpriseStep_zero [OF that refl]])
  have days: "dailyData tza (xs @ d\<lparr>count := c\<rparr> # ys) = dailyData tza (xs @ d # ys)"
    if "countOr1 (d\<lparr>count := c\<rparr>) = countOr1 d" for c
    unfolding dailyData_def
    by (simp only: fold_same_step [OF dailyStep_zero [OF that refl]])
  have plus: "totalDetections (calculateStats (xs @ d # ys)) =
           totalDetections (calculateStats (xs @ ys)) + 1"
    by (simp add: stats_fields loop_total one)
  from one stats [OF unset] stats [OF single] rows [OF unset] rows [OF single]
    days [OF unset] days [OF single] plus
  show ?thesis
    by simp
qed

theorem zero_count_weighs_one_witness:
  "count zeroCount = Some 0 \<and>
   totalDetections (calculateStats [zeroCount]) = 1 \<and>
   map total_es (rawStats [zeroCount]) = [1] \<and>
   map total_dd (dailyData tzaShanghai [zeroCount]) = [1]"
proof -
  have h: "count zeroCount = Some 0"
    by (simp add: zeroCount_def)
  from zero_count_weighs_one [OF h, of "[]" "[]" tzaShanghai, unfolded append_Nil]
  have stats: "calculateStats [zeroCount] = calculateStats [zeroCount\<lparr>count := Some 1\<rparr>]"
    and rows: "rawStats [zeroCount] = rawStats [zeroCount\<lparr>count := Some 1\<rparr>]"
    and days: "dailyData tzaShanghai [zeroCount] =
               dailyData tzaShanghai [zeroCount\<lparr>count := Some 1\<rparr>]"
    by blast+
  have "totalDetections (calculateStats [zeroCount\<lparr>count := Some 1\<rparr>]) = 1"
    and "map total_es (rawStats [zeroCount\<lparr>count := Some 1\<rparr>]) = [1]"
    and "map total_dd (dailyData tzaShanghai [zeroCount\<lparr>count := Some 1\<rparr>]) = [1]"
    by code_simp+
  with h show ?thesis
    by (simp only: stats rows days simp_thms)
qed

section \<open>The custom range of the time-window filter\<close>

text \<open>
  Claim C2 (custom range, calendar days in local time). The claim asks that the range
  2024-01-10 to 2024-01-10 selects exactly the records whose local calendar date is
  2024-01-10. In the time zone UTC+8 the record at 2024-01-10 00:00:00 local time has
  that local date, and the filter drops it: the start of the range is read as midnight
  UTC, which is 08:00 local time.
\<close>

theorem custom_filter_drops_local_midnight:
  "localDay tzaShanghai localMidnightRecord = MakeDay jan10 \<and>
   filteredDataCustom tzaShanghai jan10Range [localMidnightRecord] = []"
  by code_simp

text \<open>
  In the time zone UTC-5 the same range keeps a record of the evening of 2024-01-09
  (23:00:59 local time) and drops one at noon of 2024-01-10.
\<close>

lemma custom_filter_keeps_previous_evening:
  "localDay tzaNewYork (sampleRecord\<lparr>callTime := localInstant tzaNewYork jan10 (-1) 0 59\<rparr>) =
     MakeDay jan10 - 1 \<and>
   filteredDataCustom tzaNewYork jan10Range
     [sampleRecord\<lparr>callTime := localInstant tzaNewYork jan10 (-1) 0 59\<rparr>,
      sampleRecord\<lparr>callTime := localInstant tzaNewYork jan10 12 0 0\<rparr>] =
     [sampleRecord\<lparr>callTime := localInstant tzaNewYork jan10 (-1) 0 59\<rparr>]"
  by code_simp

text \<open>The interval the filter selects, for two valid dates and any zone.\<close>

lemma day_le_iff: "t div msPerDay \<le> E \<longleftrightarrow> t \<le> E * msPerDay + 86399999"
  unfolding msPerDay_def by linarith

lemma day_ge_iff: "S \<le> t div msPerDay \<longleftrightarrow> S * msPerDay \<le> t"
  unfolding msPerDay_def by linarith

lemma setHoursEndOfDay_east:
  assumes "0 \<le> tza" and "tza < msPerDay"
  shows "setHoursEndOfDay tza (E * msPerDay) = E * msPerDay + 86399999 - tza"
proof -
  have "(E * msPerDay + tza) div msPerDay = E"
    using assms unfolding msPerDay_def by linarith
  then show ?thesis
    by (simp add: setHoursEndOfDay_def Day_def LocalTime_def UTC_def)
qed

lemma setHoursEndOfDay_west:
  assumes "tza < 0" and "- msPerDay \<le> tza"
  shows "setHoursEndOfDay tza (E * msPerDay) = (E - 1) * msPerDay + 86399999 - tza"
proof -
  have "(E * msPerDay + tza) div msPerDay = E - 1"
    using assms unfolding msPerDay_def by linarith
  then show ?thesis
    by (simp add: setHoursEndOfDay_def Day_def LocalTime_def UTC_def)
qed

lemma customPredicate_valid:
  assumes "validDate (range_start r)" and "validDate (range_end r)"
  shows "customPredicate tza r d \<longleftrightarrow>
           MakeDay (range_start r) * msPerDay \<le> callTime d \<and>
           callTime d \<le> setHoursEndOfDay tza (MakeDay (range_end r) * msPerDay)"
  using assms by (simp add: customPredicate_def parseDateOnly_def Let_def)

text \<open>
  East of Greenwich the interval begins \<open>tza\<close> after local midnight of the start date:
  the first hours of that local day are left out. The end is the end of the local end
  date.
\<close>

lemma customPredicate_east:
  assumes "validDate (range_start r)" and "validDate (range_end r)"
    and "0 \<le> tza" and "tza < msPerDay"
  shows "customPredicate tza r d \<longleftrightarrow>
           MakeDay (range_start r) * msPerDay + tza \<le> LocalTime tza (callTime d) \<and>
           localDay tza d \<le> MakeDay (range_end r)"
  unfolding customPredicate_valid [OF assms(1,2)] setHoursEndOfDay_east [OF assms(3,4)]
    localDay_def Day_def LocalTime_def day_le_iff
  by auto

text \<open>
  West of Greenwich the interval begins before local midnight of the start date, on the
  evening before, and ends with the local day before the end date.
\<close>

lemma customPredicate_west:
  assumes "validDate (range_start r)" and "validDate (range_end r)"
    and "tza < 0" and "- msPerDay \<le> tza"
  shows "customPredicate tza r d \<longleftrightarrow>
           MakeDay (range_start r) * msPerDay + tza \<le> LocalTime tza (callTime d) \<and>
           localDay tza d \<le> MakeDay (range_end r) - 1"
  unfolding customPredicate_valid [OF assms(1,2)] setHoursEndOfDay_west [OF assms(3,4)]
    localDay_def Day_def LocalTime_def day_le_iff
  by auto

text \<open>In UTC the filter is the calendar-day filter the specification describes.\<close>

lemma customPredicate_utc:
  assumes "validDate (range_start r)" and "validDate (range_end r)"
  shows "customPredicate 0 r d \<longleftrightarrow>
           MakeDay (range_start r) \<le> localDay 0 d \<and> localDay 0 d \<le> MakeDay (range_end r)"
proof -
  have "(0::int) \<le> 0" and "(0::int) < msPerDay"
    by (simp_all add: msPerDay_def)
  from customPredicate_east [OF assms this] show ?thesis
    by (simp add: localDay_def LocalTime_def Day_def day_ge_iff)
qed

section \<open>The search filter of the table\<close>

text \<open>
  Claim C7 (search filter). The claim asks that a row is kept if and only if the term
  matches, without regard to case, the display name or the id. The term \<open>A1\<close> occurs
  in the id \<open>A1\<close> as it is written, and the filter drops the row: the term is lowered
  before the comparison and the id is not.
\<close>

theorem search_misses_uppercase_id:
  "str_includes (id_es rowA1) ''A1'' \<and> filterRows ''A1'' [rowA1] = []"
  by code_simp

text \<open>
  What does hold: a blank term keeps all rows, the result is never longer than the
  input, and where no id has an upper-case letter the filter is the case-insensitive
  match on name and id.
\<close>

lemma str_includes_sublist: "str_includes s t \<longleftrightarrow> sublist t s"
  by (induction s) (auto simp: sublist_Cons_right)

lemma filterRows_blank: "trim searchTerm = [] \<Longrightarrow> filterRows searchTerm rows = rows"
  by (simp add: filterRows_def)

lemma filterRows_length: "length (filterRows searchTerm rows) \<le> length rows"
  by (simp add: filterRows_def Let_def)

lemma filterRows_lowercase_ids:
  assumes "trim searchTerm \<noteq> []" and "list_all (\<lambda>r. toLowerCase (id_es r) = id_es r) rows"
  shows "filterRows searchTerm rows =
           filter (\<lambda>r. sublist (toLowerCase searchTerm) (toLowerCase (name_es r)) \<or>
                        sublist (toLowerCase searchTerm) (toLowerCase (id_es r))) rows"
  using assms
  by (induction rows) (auto simp: filterRows_def Let_def matchesTerm_def str_includes_sublist)

section \<open>Claims about the table\<close>

text \<open>
  Claim C8 (sort selection). From every state (active key, direction), a sort request
  with key K leads to key K with the direction flipped when K was the active key, and to
  key K descending otherwise. So the second of two consecutive requests with one key
  gives the direction opposite to the first, and a third request gives the state of the
  first again.
\<close>

theorem handleSort_transition:
  "key (handleSort K s) = Some K \<and>
   direction (handleSort K s) = (if key s = Some K then flipped (direction s) else desc) \<and>
   direction (handleSort K (handleSort K s)) = flipped (direction (handleSort K s)) \<and>
   direction (handleSort K (handleSort K s)) \<noteq> direction (handleSort K s) \<and>
   handleSort K (handleSort K (handleSort K s)) = handleSort K s"
proof -
  have flip: "(if d = asc then desc else asc) = flipped d" for d
    by (cases d) simp_all
  have step: "handleSort K s =
      \<lparr>key = Some K, direction = (if key s = Some K then flipped (direction s) else desc)\<rparr>" for s
    by (simp add: handleSort_def flip)
  have twice: "flipped (flipped d) = d" and differs: "flipped d \<noteq> d" for d
    by (cases d; simp)+
  show ?thesis
    by (simp add: step twice differs)
qed

theorem handleSort_transition_witness:
  "handleSort key_high initialSortConfig = \<lparr>key = Some key_high, direction = asc\<rparr> \<and>
   handleSort key_low initialSortConfig = \<lparr>key = Some key_low, direction = desc\<rparr> \<and>
   direction (handleSort key_low (handleSort key_low initialSortConfig)) = asc \<and>
   direction (handleSort key_low (handleSort key_low (handleSort key_low initialSortConfig))) = desc"
proof -
  have "key initialSortConfig = Some key_high" and "direction initialSortConfig = desc"
    by (simp_all add: initialSortConfig_def)
  with handleSort_transition [of key_high initialSortConfig]
    handleSort_transition [of key_low initialSortConfig]
  show ?thesis
    by (simp add: SortConfig.equality)
qed

end
